theory Spec2Isabelle
  imports Main
begin

section \<open>Addresses and undefined behaviour\<close>

text \<open>
  Raw addresses are natural numbers; \<open>0\<close> is \<open>nullptr\<close>.  Handles are objects
  themselves (a circular-list handle is a list node, and the intrusive assignment compares
  \<open>&other\<close> with \<open>this\<close>), so they live in a store indexed by their own address.

  The C++ operations that have no defined result are values of \<open>fault\<close>: following a
  link to, or calling a method of, a handle that has been destroyed; calling
  \<open>duplicate()\<close>/\<open>release()\<close> on a pointee that has been destroyed; incrementing an
  \<open>int\<close> beyond \<open>INT_MAX\<close>.
\<close>

type_synonym addr = nat

datatype fault = DanglingHandle | DanglingPointee | IntOverflow

definition INT_MAX :: int where
  "INT_MAX = 2147483647"

section \<open>linked\_ptr.hpp: the circular-list shared pointer\<close>

text \<open>
  \<open>struct basic_linked_ptr_node { Prev; Next; }\<close> and its derived class
  \<open>basic_linked_ptr<T>\<close>, which adds \<open>m_pValue\<close>.
\<close>

record basic_linked_ptr =
  Prev :: addr
  Next :: addr
  m_pValue :: addr

text \<open>
  The store: the live handles, and the log of the executed \<open>delete\<close> expressions on a
  non-null address, oldest first (\<open>delete nullptr\<close> does nothing).
\<close>

record linked_heap =
  nodes :: "addr \<rightharpoonup> basic_linked_ptr"
  deleted :: "addr list"

definition node_at :: "linked_heap \<Rightarrow> addr \<Rightarrow> fault + basic_linked_ptr" where
  "node_at h a = (case nodes h a of None \<Rightarrow> Inl DanglingHandle | Some n \<Rightarrow> Inr n)"

definition set_Prev :: "linked_heap \<Rightarrow> addr \<Rightarrow> addr \<Rightarrow> fault + linked_heap" where
  "set_Prev h a v =
     (case nodes h a of
        None \<Rightarrow> Inl DanglingHandle
      | Some n \<Rightarrow> Inr (h\<lparr>nodes := (nodes h)(a \<mapsto> n\<lparr>Prev := v\<rparr>)\<rparr>))"

definition set_Next :: "linked_heap \<Rightarrow> addr \<Rightarrow> addr \<Rightarrow> fault + linked_heap" where
  "set_Next h a v =
     (case nodes h a of
        None \<Rightarrow> Inl DanglingHandle
      | Some n \<Rightarrow> Inr (h\<lparr>nodes := (nodes h)(a \<mapsto> n\<lparr>Next := v\<rparr>)\<rparr>))"

definition set_m_pValue :: "linked_heap \<Rightarrow> addr \<Rightarrow> addr \<Rightarrow> fault + linked_heap" where
  "set_m_pValue h a v =
     (case nodes h a of
        None \<Rightarrow> Inl DanglingHandle
      | Some n \<Rightarrow> Inr (h\<lparr>nodes := (nodes h)(a \<mapsto> n\<lparr>m_pValue := v\<rparr>)\<rparr>))"

text \<open>Sequencing of statements: the first fault ends the run.\<close>

definition and_then :: "fault + 'a \<Rightarrow> ('a \<Rightarrow> fault + 'b) \<Rightarrow> fault + 'b" where
  "and_then m f = (case m of Inl e \<Rightarrow> Inl e | Inr x \<Rightarrow> f x)"

text \<open>\<open>delete p\<close>.\<close>

definition delete_value :: "linked_heap \<Rightarrow> addr \<Rightarrow> linked_heap" where
  "delete_value h p = (if p = 0 then h else h\<lparr>deleted := deleted h @ [p]\<rparr>)"

text \<open>
  \<open>basic_linked_ptr() : m_pValue(nullptr) { Prev = Next = this; }\<close> and
  \<open>basic_linked_ptr(pointer pValue) : m_pValue(pValue) { Prev = Next = this; }\<close>,
  for a handle constructed at address \<open>this\<close>.
\<close>

definition new_linked_ptr :: "linked_heap \<Rightarrow> addr \<Rightarrow> addr \<Rightarrow> linked_heap" where
  "new_linked_ptr h this pValue =
     h\<lparr>nodes := (nodes h)(this \<mapsto> \<lparr>Prev = this, Next = this, m_pValue = pValue\<rparr>)\<rparr>"

definition new_linked_ptr_default :: "linked_heap \<Rightarrow> addr \<Rightarrow> linked_heap" where
  "new_linked_ptr_default h this = new_linked_ptr h this 0"

text \<open>
  \<open>link(pOther)\<close>, statement by statement:
  \<^verbatim>\<open>
    Next           = pOther.mpNext;
    Prev           = this;
    Prev           = const_cast<basic_linked_ptr<U>*>(&pOther);
    pOther.Next    = this;
  \<close>
  No class of the sources declares a member \<open>mpNext\<close>: the node has the two links
  \<open>Prev\<close> and \<open>Next\<close> only, and with the first statement as it is written
  \<open>link\<close> is ill-formed wherever it is instantiated.  The model does not choose a
  member for it: which declared link the name stands for is the parameter \<open>mpNext\<close>
  of \<open>link\<close> and of every operation that calls it, and a property of these operations
  is stated for both members.
\<close>

datatype link_member = member_Prev | member_Next

definition member_value :: "link_member \<Rightarrow> basic_linked_ptr \<Rightarrow> addr" where
  "member_value mpNext n = (case mpNext of member_Prev \<Rightarrow> Prev n | member_Next \<Rightarrow> Next n)"

definition link :: "link_member \<Rightarrow> linked_heap \<Rightarrow> addr \<Rightarrow> addr \<Rightarrow> fault + linked_heap" where
  "link mpNext h this pOther =
     and_then (node_at h pOther) (\<lambda>other.
     and_then (set_Next h this (member_value mpNext other)) (\<lambda>h1.
     and_then (set_Prev h1 this this) (\<lambda>h2.
     and_then (set_Prev h2 this pOther) (\<lambda>h3.
     set_Next h3 pOther this))))"

text \<open>
  The copy constructor:
  \<open>m_pValue(_pPtr.m_pValue) { if(m_pValue) link(_pPtr); else Prev = Next = this; }\<close>.
  The two links of the object under construction are indeterminate until the body has
  run; neither branch reads them, and the model starts them at \<open>this\<close>.
\<close>

definition copy_linked_ptr ::
  "link_member \<Rightarrow> linked_heap \<Rightarrow> addr \<Rightarrow> addr \<Rightarrow> fault + linked_heap" where
  "copy_linked_ptr mpNext h this pPtr =
     and_then (node_at h pPtr) (\<lambda>other.
       let h1 = new_linked_ptr h this (m_pValue other)
       in if m_pValue other \<noteq> 0 then link mpNext h1 this pPtr else Inr h1)"

text \<open>\<open>bool unique() { return (Next == this); }\<close> and \<open>get()\<close>.\<close>

definition unique :: "linked_heap \<Rightarrow> addr \<Rightarrow> fault + bool" where
  "unique h this = and_then (node_at h this) (\<lambda>n. Inr (Next n = this))"

definition get :: "linked_heap \<Rightarrow> addr \<Rightarrow> fault + addr" where
  "get h this = and_then (node_at h this) (\<lambda>n. Inr (m_pValue n))"

text \<open>
  \<open>count()\<close>: \<open>_count\<close> starts at 1 and the loop
  \<open>for (_pCurrent = this; _pCurrent->Next != this; _pCurrent = _pCurrent->Next) ++_count;\<close>
  follows the forward links.  \<open>_count\<close> is an \<open>int\<close>, so the walk ends after fewer than
  \<open>INT_MAX\<close> steps, with a result or with a fault.
\<close>

function count_loop :: "linked_heap \<Rightarrow> addr \<Rightarrow> addr \<Rightarrow> int \<Rightarrow> fault + int" where
  "count_loop h this pCurrent c =
     (case nodes h pCurrent of
        None \<Rightarrow> Inl DanglingHandle
      | Some n \<Rightarrow>
          if Next n = this then Inr c
          else if INT_MAX \<le> c then Inl IntOverflow
          else count_loop h this (Next n) (c + 1))"
  by pat_completeness auto
termination
  by (relation "measure (\<lambda>(h, this, pCurrent, c). nat (INT_MAX - c))") auto

declare count_loop.simps [simp del]

definition count :: "linked_heap \<Rightarrow> addr \<Rightarrow> fault + int" where
  "count h this = count_loop h this this 1"

text \<open>
  \<open>reset(pValue)\<close>:
  \<^verbatim>\<open>
    if(pValue != m_pValue) {
        if(unique()) { delete m_pValue; }
        else { Prev->Next = Next; Next->Prev = Prev; Prev = Next = this; }
        m_pValue = pValue;
    }
  \<close>
  Every statement reads the fields it uses from the store as it then is.
\<close>

definition reset :: "linked_heap \<Rightarrow> addr \<Rightarrow> addr \<Rightarrow> fault + linked_heap" where
  "reset h this pValue =
     and_then (node_at h this) (\<lambda>n.
       if pValue \<noteq> m_pValue n then
         and_then (unique h this) (\<lambda>u.
         and_then
           (if u then Inr (delete_value h (m_pValue n))
            else
              and_then (set_Next h (Prev n) (Next n)) (\<lambda>h1.
              and_then (node_at h1 this) (\<lambda>n1.
              and_then (set_Prev h1 (Next n1) (Prev n1)) (\<lambda>h2.
              and_then (set_Next h2 this this) (\<lambda>h3.
              set_Prev h3 this this)))))
           (\<lambda>h4. set_m_pValue h4 this pValue))
       else Inr h)"

text \<open>
  \<open>void reset() { reset(nullptr); }\<close>.  The only \<open>reset\<close> with one parameter is the
  template \<open>reset(U* pValue)\<close> above, and \<open>U\<close> cannot be deduced from \<open>nullptr\<close>:
  as it is written the call names no function, and with it the destructor, which is
  \<open>~basic_linked_ptr() { reset(); }\<close>, is ill-formed.  Whichever \<open>U\<close> is named for
  it, the argument of the call is the null pointer; \<open>reset_void\<close> is that call, and
  there is no second candidate it could stand for.  After the destructor the handle's
  storage is gone.
\<close>

definition reset_void :: "linked_heap \<Rightarrow> addr \<Rightarrow> fault + linked_heap" where
  "reset_void h this = reset h this 0"

definition destroy_linked_ptr :: "linked_heap \<Rightarrow> addr \<Rightarrow> fault + linked_heap" where
  "destroy_linked_ptr h this =
     and_then (reset_void h this) (\<lambda>h1. Inr (h1\<lparr>nodes := (nodes h1)(this := None)\<rparr>))"

text \<open>
  \<open>operator=(const basic_linked_ptr& _pPtr)\<close>:
  \<^verbatim>\<open>
    if(_pPtr.m_pValue != m_pValue) {
        reset(_pPtr.m_pValue);
        if(_pPtr.m_pValue) link(_pPtr);
    }
  \<close>
  and \<open>operator=(U* pValue) { reset(pValue); }\<close>.
\<close>

definition assign_linked_ptr ::
  "link_member \<Rightarrow> linked_heap \<Rightarrow> addr \<Rightarrow> addr \<Rightarrow> fault + linked_heap" where
  "assign_linked_ptr mpNext h this pPtr =
     and_then (node_at h pPtr) (\<lambda>other.
     and_then (node_at h this) (\<lambda>n.
       if m_pValue other \<noteq> m_pValue n then
         and_then (reset h this (m_pValue other)) (\<lambda>h1.
         and_then (node_at h1 pPtr) (\<lambda>other1.
           if m_pValue other1 \<noteq> 0 then link mpNext h1 this pPtr else Inr h1))
       else Inr h))"

definition assign_linked_raw :: "linked_heap \<Rightarrow> addr \<Rightarrow> addr \<Rightarrow> fault + linked_heap" where
  "assign_linked_raw h this pValue = reset h this pValue"

text \<open>
  \<open>detach()\<close>:
  \<^verbatim>\<open>
    T* _pValue = m_pValue;  base_type* _p = this;
    do {
        base_type* _pNext = _p->Next;
        static_cast<self_type*>(_p)->m_pValue = 0;
        _p->Next = _p->Prev = _p;
        _p = _pNext;
    } while(_p != this);
    return _pValue;
  \<close>
  The walk need not come back to \<open>this\<close> (a visited node points to itself), so the loop
  is a partial function: \<open>None\<close> is a run that never ends.
\<close>

partial_function (option) detach_loop ::
  "linked_heap \<Rightarrow> addr \<Rightarrow> addr \<Rightarrow> (fault + linked_heap) option" where
  "detach_loop h this p =
     (case nodes h p of
        None \<Rightarrow> Some (Inl DanglingHandle)
      | Some n \<Rightarrow>
          let h1 = h\<lparr>nodes := (nodes h)(p \<mapsto> \<lparr>Prev = p, Next = p, m_pValue = 0\<rparr>)\<rparr>
          in if Next n = this then Some (Inr h1) else detach_loop h1 this (Next n))"

definition detach :: "linked_heap \<Rightarrow> addr \<Rightarrow> (fault + linked_heap \<times> addr) option" where
  "detach h this =
     (case nodes h this of
        None \<Rightarrow> Some (Inl DanglingHandle)
      | Some n \<Rightarrow>
          (case detach_loop h this this of
             None \<Rightarrow> None
           | Some (Inl e) \<Rightarrow> Some (Inl e)
           | Some (Inr h1) \<Rightarrow> Some (Inr (h1, m_pValue n))))"

text \<open>\<open>force_delete() { pointer _pValue = detach(); delete _pValue; }\<close>\<close>

definition force_delete :: "linked_heap \<Rightarrow> addr \<Rightarrow> (fault + linked_heap) option" where
  "force_delete h this =
     (case detach h this of
        None \<Rightarrow> None
      | Some (Inl e) \<Rightarrow> Some (Inl e)
      | Some (Inr (h1, pValue)) \<Rightarrow> Some (Inr (delete_value h1 pValue)))"

text \<open>
  A client of the circular-list pointer is a sequence of calls; \<open>run_linked\<close> runs it
  from left to right and stops at the first fault.  Its first argument is the member
  that \<open>mpNext\<close> stands for in \<open>link\<close>.
\<close>

datatype linked_op =
    Construct addr addr
  | CopyConstruct addr addr
  | Assign addr addr
  | Reset addr addr
  | Destroy addr

fun exec_linked_op :: "link_member \<Rightarrow> linked_heap \<Rightarrow> linked_op \<Rightarrow> fault + linked_heap" where
  "exec_linked_op mpNext h (Construct this pValue) = Inr (new_linked_ptr h this pValue)"
| "exec_linked_op mpNext h (CopyConstruct this pPtr) = copy_linked_ptr mpNext h this pPtr"
| "exec_linked_op mpNext h (Assign this pPtr) = assign_linked_ptr mpNext h this pPtr"
| "exec_linked_op mpNext h (Reset this pValue) = reset h this pValue"
| "exec_linked_op mpNext h (Destroy this) = destroy_linked_ptr h this"

fun run_linked :: "link_member \<Rightarrow> linked_heap \<Rightarrow> linked_op list \<Rightarrow> fault + linked_heap" where
  "run_linked mpNext h [] = Inr h"
| "run_linked mpNext h (x # xs) =
     and_then (exec_linked_op mpNext h x) (\<lambda>h1. run_linked mpNext h1 xs)"

definition no_handles :: linked_heap where
  "no_handles = \<lparr>nodes = Map.empty, deleted = []\<rparr>"

text \<open>
  The cycle invariant of the data model at a handle \<open>a\<close>: \<open>a.Next.Prev == a\<close> and
  \<open>a.Prev.Next == a\<close>, both neighbours being live handles.
\<close>

definition links_symmetric :: "linked_heap \<Rightarrow> addr \<Rightarrow> bool" where
  "links_symmetric h a =
     (case nodes h a of
        None \<Rightarrow> False
      | Some n \<Rightarrow>
          (case nodes h (Next n) of None \<Rightarrow> False | Some m \<Rightarrow> Prev m = a) \<and>
          (case nodes h (Prev n) of None \<Rightarrow> False | Some m \<Rightarrow> Next m = a))"

section \<open>auto\_ptr.hpp: the intrusive reference-counted pointer\<close>

text \<open>\<open>basic_auto_ptr<T>\<close> has the single field \<open>m_ptr\<close>.\<close>

record basic_auto_ptr =
  m_ptr :: addr

text \<open>
  The store: the live handles, the internal count of every live pointee (no entry: no
  live object at that address), and the log of the calls made to the pointees, oldest
  first.
\<close>

datatype call = Duplicate addr | Release addr

record auto_heap =
  handles :: "addr \<rightharpoonup> basic_auto_ptr"
  refcount :: "addr \<rightharpoonup> nat"
  calls :: "call list"

text \<open>
  Modelled from the spec: the pointee's capability \<open>duplicate()\<close>/\<open>release()\<close>.  The
  pointee type is the template parameter \<open>T\<close>, outside the sources; the data model has
  it that \<open>duplicate\<close> increments an internally-stored count and returns the same
  address, and that \<open>release\<close> decrements it and destroys the object when the count
  reaches zero.  An object starts with count 1, so a live object has a positive count.
\<close>

definition pointee_duplicate :: "auto_heap \<Rightarrow> addr \<Rightarrow> fault + auto_heap" where
  "pointee_duplicate h p =
     (case refcount h p of
        None \<Rightarrow> Inl DanglingPointee
      | Some c \<Rightarrow> Inr (h\<lparr>refcount := (refcount h)(p \<mapsto> c + 1), calls := calls h @ [Duplicate p]\<rparr>))"

definition pointee_release :: "auto_heap \<Rightarrow> addr \<Rightarrow> fault + auto_heap" where
  "pointee_release h p =
     (case refcount h p of
        None \<Rightarrow> Inl DanglingPointee
      | Some c \<Rightarrow>
          Inr (h\<lparr>refcount := (if c \<le> 1 then (refcount h)(p := None) else (refcount h)(p \<mapsto> c - 1)),
                 calls := calls h @ [Release p]\<rparr>))"

definition handle_at :: "auto_heap \<Rightarrow> addr \<Rightarrow> fault + basic_auto_ptr" where
  "handle_at h a = (case handles h a of None \<Rightarrow> Inl DanglingHandle | Some n \<Rightarrow> Inr n)"

definition set_m_ptr :: "auto_heap \<Rightarrow> addr \<Rightarrow> addr \<Rightarrow> fault + auto_heap" where
  "set_m_ptr h a v =
     (case handles h a of
        None \<Rightarrow> Inl DanglingHandle
      | Some n \<Rightarrow> Inr (h\<lparr>handles := (handles h)(a \<mapsto> n\<lparr>m_ptr := v\<rparr>)\<rparr>))"

text \<open>\<open>if (m_ptr) m_ptr->release();\<close> and \<open>if (m_ptr) m_ptr->duplicate();\<close>\<close>

definition release_if_set :: "auto_heap \<Rightarrow> addr \<Rightarrow> fault + auto_heap" where
  "release_if_set h this =
     and_then (handle_at h this) (\<lambda>n. if m_ptr n \<noteq> 0 then pointee_release h (m_ptr n) else Inr h)"

definition duplicate_if_set :: "auto_heap \<Rightarrow> addr \<Rightarrow> fault + auto_heap" where
  "duplicate_if_set h this =
     and_then (handle_at h this) (\<lambda>n. if m_ptr n \<noteq> 0 then pointee_duplicate h (m_ptr n) else Inr h)"

text \<open>
  The constructors, for a handle constructed at address \<open>this\<close>:
  \<^verbatim>\<open>
    basic_auto_ptr()                         : m_ptr(nullptr) { }
    basic_auto_ptr(pointer ptr)              : m_ptr(ptr) { }
    basic_auto_ptr(pointer ptr, bool shared) : m_ptr(ptr) { }
    basic_auto_ptr(const self_type& other)   : m_ptr(other.m_ptr) { }
    basic_auto_ptr(basic_auto_ptr&& other)   : m_ptr(move(other.m_ptr)) { other.m_ptr = nullptr; }
    template <class TO> basic_auto_ptr(const basic_auto_ptr<TO>& other)
        : m_ptr(const_cast<TO*>(other.get())) { if (m_ptr) m_ptr->duplicate(); }
  \<close>
\<close>

definition new_auto_ptr :: "auto_heap \<Rightarrow> addr \<Rightarrow> addr \<Rightarrow> auto_heap" where
  "new_auto_ptr h this ptr = h\<lparr>handles := (handles h)(this \<mapsto> \<lparr>m_ptr = ptr\<rparr>)\<rparr>"

definition new_auto_ptr_default :: "auto_heap \<Rightarrow> addr \<Rightarrow> auto_heap" where
  "new_auto_ptr_default h this = h\<lparr>handles := (handles h)(this \<mapsto> \<lparr>m_ptr = 0\<rparr>)\<rparr>"

definition new_auto_ptr_shared :: "auto_heap \<Rightarrow> addr \<Rightarrow> addr \<Rightarrow> bool \<Rightarrow> auto_heap" where
  "new_auto_ptr_shared h this ptr shared = h\<lparr>handles := (handles h)(this \<mapsto> \<lparr>m_ptr = ptr\<rparr>)\<rparr>"

definition copy_auto_ptr :: "auto_heap \<Rightarrow> addr \<Rightarrow> addr \<Rightarrow> fault + auto_heap" where
  "copy_auto_ptr h this other =
     and_then (handle_at h other) (\<lambda>n.
       Inr (h\<lparr>handles := (handles h)(this \<mapsto> \<lparr>m_ptr = m_ptr n\<rparr>)\<rparr>))"

definition move_auto_ptr :: "auto_heap \<Rightarrow> addr \<Rightarrow> addr \<Rightarrow> fault + auto_heap" where
  "move_auto_ptr h this other =
     and_then (handle_at h other) (\<lambda>n.
       set_m_ptr (h\<lparr>handles := (handles h)(this \<mapsto> \<lparr>m_ptr = m_ptr n\<rparr>)\<rparr>) other 0)"

definition convert_auto_ptr :: "auto_heap \<Rightarrow> addr \<Rightarrow> addr \<Rightarrow> fault + auto_heap" where
  "convert_auto_ptr h this other =
     and_then (handle_at h other) (\<lambda>n.
       duplicate_if_set (h\<lparr>handles := (handles h)(this \<mapsto> \<lparr>m_ptr = m_ptr n\<rparr>)\<rparr>) this)"

text \<open>
  The destructor \<open>~basic_auto_ptr() { if (m_ptr) m_ptr->release(); }\<close>; after it the
  handle's storage is gone.
\<close>

definition destroy_auto_ptr :: "auto_heap \<Rightarrow> addr \<Rightarrow> fault + auto_heap" where
  "destroy_auto_ptr h this =
     and_then (release_if_set h this) (\<lambda>h1. Inr (h1\<lparr>handles := (handles h1)(this := None)\<rparr>))"

text \<open>\<open>get()\<close> and \<open>isNull()\<close>.\<close>

definition get_auto :: "auto_heap \<Rightarrow> addr \<Rightarrow> fault + addr" where
  "get_auto h this = and_then (handle_at h this) (\<lambda>n. Inr (m_ptr n))"

definition isNull :: "auto_heap \<Rightarrow> addr \<Rightarrow> fault + bool" where
  "isNull h this = and_then (handle_at h this) (\<lambda>n. Inr (m_ptr n = 0))"

text \<open>
  The private \<open>assign\<close> overloads, which \<open>operator=\<close> and \<open>reset(...)\<close> forward to:
  \<^verbatim>\<open>
    assign(pointer other) {
        if (m_ptr != other) { if (m_ptr) m_ptr->release(); m_ptr = other; } }
    assign(pointer other, bool shared) {
        if (m_ptr != other) { if (m_ptr) m_ptr->release(); m_ptr = other;
                              if (shared && m_ptr) m_ptr->duplicate(); } }
    assign(const self_type& other) {
        if (&other != this) { if (m_ptr) m_ptr->release(); m_ptr = other.m_ptr;
                              if (m_ptr) m_ptr->duplicate(); } }
    template <class TO> assign(const basic_auto_ptr<TO>& other) {
        if (other.get() != m_ptr) { if (m_ptr) m_ptr->release();
                                    m_ptr = const_cast<TO*>(other.get());
                                    if (m_ptr) m_ptr->duplicate(); } }
  \<close>
\<close>

definition assign_ptr :: "auto_heap \<Rightarrow> addr \<Rightarrow> addr \<Rightarrow> fault + auto_heap" where
  "assign_ptr h this other =
     and_then (handle_at h this) (\<lambda>n.
       if m_ptr n \<noteq> other then
         and_then (release_if_set h this) (\<lambda>h1. set_m_ptr h1 this other)
       else Inr h)"

definition assign_ptr_shared :: "auto_heap \<Rightarrow> addr \<Rightarrow> addr \<Rightarrow> bool \<Rightarrow> fault + auto_heap" where
  "assign_ptr_shared h this other shared =
     and_then (handle_at h this) (\<lambda>n.
       if m_ptr n \<noteq> other then
         and_then (release_if_set h this) (\<lambda>h1.
         and_then (set_m_ptr h1 this other) (\<lambda>h2.
           if shared then duplicate_if_set h2 this else Inr h2))
       else Inr h)"

definition assign_auto_ptr :: "auto_heap \<Rightarrow> addr \<Rightarrow> addr \<Rightarrow> fault + auto_heap" where
  "assign_auto_ptr h this other =
     (if other \<noteq> this then
        and_then (release_if_set h this) (\<lambda>h1.
        and_then (handle_at h1 other) (\<lambda>n.
        and_then (set_m_ptr h1 this (m_ptr n)) (\<lambda>h2.
        duplicate_if_set h2 this)))
      else Inr h)"

definition assign_convert :: "auto_heap \<Rightarrow> addr \<Rightarrow> addr \<Rightarrow> fault + auto_heap" where
  "assign_convert h this other =
     and_then (handle_at h other) (\<lambda>n.
     and_then (handle_at h this) (\<lambda>me.
       if m_ptr n \<noteq> m_ptr me then
         and_then (release_if_set h this) (\<lambda>h1.
         and_then (handle_at h1 other) (\<lambda>n1.
         and_then (set_m_ptr h1 this (m_ptr n1)) (\<lambda>h2.
         duplicate_if_set h2 this)))
       else Inr h))"

text \<open>
  \<open>reset()\<close> is \<open>if (m_ptr) { m_ptr->release(); m_ptr = nullptr; }\<close>;
  \<open>reset(pointer ptr, bool shared)\<close> is \<open>assign(ptr, shared)\<close>.
\<close>

definition reset_auto :: "auto_heap \<Rightarrow> addr \<Rightarrow> fault + auto_heap" where
  "reset_auto h this =
     and_then (handle_at h this) (\<lambda>n.
       if m_ptr n \<noteq> 0 then
         and_then (pointee_release h (m_ptr n)) (\<lambda>h1. set_m_ptr h1 this 0)
       else Inr h)"

definition reset_shared :: "auto_heap \<Rightarrow> addr \<Rightarrow> addr \<Rightarrow> bool \<Rightarrow> fault + auto_heap" where
  "reset_shared h this ptr shared = assign_ptr_shared h this ptr shared"

text \<open>
  The move assignment:
  \<^verbatim>\<open>
    operator = (self_type&& other) {
        if (m_ptr) m_ptr->release();
        m_ptr = other.m_ptr;
        other.m_ptr = nullptr;
    }
  \<close>
\<close>

definition move_assign :: "auto_heap \<Rightarrow> addr \<Rightarrow> addr \<Rightarrow> fault + auto_heap" where
  "move_assign h this other =
     and_then (release_if_set h this) (\<lambda>h1.
     and_then (handle_at h1 other) (\<lambda>n.
     and_then (set_m_ptr h1 this (m_ptr n)) (\<lambda>h2.
     set_m_ptr h2 other 0)))"

text \<open>
  \<open>dycast<TO>()\<close>:
  \<^verbatim>\<open>
    TO* pOther = dynamic_cast<TO*>(m_ptr);
    return basic_auto_ptr<TO>(pOther, true);
  \<close>
  The run-time type information is the parameter \<open>as_TO\<close>: for a live object at \<open>p\<close>,
  \<open>as_TO p\<close> is the address of its \<open>TO\<close> subobject, or \<open>0\<close> when the object is not a
  \<open>TO\<close>.  A null pointer casts to a null pointer.  The handle returned is constructed
  at address \<open>result\<close>.
\<close>

definition dynamic_cast :: "(addr \<Rightarrow> addr) \<Rightarrow> auto_heap \<Rightarrow> addr \<Rightarrow> fault + addr" where
  "dynamic_cast as_TO h p =
     (if p = 0 then Inr 0
      else case refcount h p of None \<Rightarrow> Inl DanglingPointee | Some c \<Rightarrow> Inr (as_TO p))"

definition dycast :: "(addr \<Rightarrow> addr) \<Rightarrow> auto_heap \<Rightarrow> addr \<Rightarrow> addr \<Rightarrow> fault + auto_heap" where
  "dycast as_TO h this result =
     and_then (handle_at h this) (\<lambda>n.
     and_then (dynamic_cast as_TO h (m_ptr n)) (\<lambda>pOther.
       Inr (new_auto_ptr_shared h result pOther True)))"

section \<open>Properties of the circular-list shared pointer\<close>

lemmas linked_defs = node_at_def set_Prev_def set_Next_def set_m_pValue_def and_then_def
  delete_value_def new_linked_ptr_def new_linked_ptr_default_def link_def copy_linked_ptr_def
  unique_def get_def count_def reset_def destroy_linked_ptr_def assign_linked_ptr_def
  assign_linked_raw_def member_value_def reset_void_def

text \<open>The counter of \<open>count()\<close> only grows, so a walk that has left \<open>this\<close> cannot report 1.\<close>

lemma count_loop_ge: "count_loop h this pCurrent c = Inr r \<Longrightarrow> c \<le> r"
proof (induction h this pCurrent c rule: count_loop.induct)
  case (1 h this pCurrent c)
  then show ?case
    by (subst (asm) count_loop.simps) (auto split: option.splits if_splits)
qed

text \<open>
  Claim C8.  For every circular-list handle, \<open>unique()\<close> returns true if and only if
  \<open>count()\<close> returns 1, and for a live handle \<open>unique()\<close> is the test that its
  \<open>Next\<close> link points to itself; a default-constructed (null) handle has \<open>unique()\<close>
  true and \<open>count()\<close> 1.
\<close>

theorem unique_iff_count_one:
  "(unique h this = Inr True \<longleftrightarrow> count h this = Inr 1) \<and>
   (nodes h this = Some n \<longrightarrow> unique h this = Inr (Next n = this)) \<and>
   unique (new_linked_ptr_default h this) this = Inr True \<and>
   count (new_linked_ptr_default h this) this = Inr 1"
proof -
  have iff: "unique h this = Inr True \<longleftrightarrow> count h this = Inr 1"
  proof (cases "nodes h this")
    case None
    then show ?thesis
      by (simp add: unique_def count_def node_at_def and_then_def count_loop.simps)
  next
    case (Some m)
    show ?thesis
    proof (cases "Next m = this")
      case True
      with Some show ?thesis
        by (simp add: unique_def count_def node_at_def and_then_def count_loop.simps)
    next
      case False
      have "count_loop h this (Next m) 2 \<noteq> Inr 1"
        using count_loop_ge [of h this "Next m" 2 1] by auto
      with Some False show ?thesis
        by (simp add: unique_def count_def node_at_def and_then_def
            count_loop.simps [of h this this] INT_MAX_def)
    qed
  qed
  then show ?thesis
    by (simp add: unique_def count_def node_at_def and_then_def count_loop.simps
        new_linked_ptr_default_def new_linked_ptr_def)
qed

theorem unique_iff_count_one_witness:
  "nodes (new_linked_ptr no_handles 1 100) 1 = Some \<lparr>Prev = 1, Next = 1, m_pValue = 100\<rparr> \<and>
   unique (new_linked_ptr no_handles 1 100) 1 = Inr True \<and>
   count (new_linked_ptr no_handles 1 100) 1 = Inr 1"
proof -
  note at_owner = unique_iff_count_one
    [of "new_linked_ptr no_handles 1 100" 1 "\<lparr>Prev = 1, Next = 1, m_pValue = 100\<rparr>"]
  have live: "nodes (new_linked_ptr no_handles 1 100) 1 = Some \<lparr>Prev = 1, Next = 1, m_pValue = 100\<rparr>"
    by (simp add: new_linked_ptr_def no_handles_def)
  with at_owner have u: "unique (new_linked_ptr no_handles 1 100) 1 = Inr True"
    by simp
  with at_owner have "count (new_linked_ptr no_handles 1 100) 1 = Inr 1"
    by blast
  with live u show ?thesis
    by blast
qed

text \<open>
  Copying from a singleton owner and destroying the copy, for either member that
  \<open>mpNext\<close> may stand for (a singleton has \<open>Prev = Next\<close>, so both read the same
  address): the copy makes \<open>count()\<close> 2 and \<open>unique()\<close> false on both handles, and
  destroying it makes the owner unique again and deletes nothing.
\<close>

lemma copy_then_destroy_copy:
  assumes "nodes h P = Some \<lparr>Prev = P, Next = P, m_pValue = v\<rparr>" and "v \<noteq> 0" and "Q \<noteq> P"
  shows "\<exists>h1 h2. copy_linked_ptr mpNext h Q P = Inr h1 \<and>
           count h1 P = Inr 2 \<and> count h1 Q = Inr 2 \<and>
           unique h1 P = Inr False \<and> unique h1 Q = Inr False \<and>
           destroy_linked_ptr h1 Q = Inr h2 \<and>
           count h2 P = Inr 1 \<and> unique h2 P = Inr True \<and>
           get h2 P = Inr v \<and> deleted h2 = deleted h"
  using assms
  by (cases mpNext) (simp_all add: linked_defs Let_def count_loop.simps INT_MAX_def)

text \<open>
  Three handles built by copy-construction from one owner, \<open>mpNext\<close> standing for
  \<open>Next\<close>: whichever of the first two the third is copied from, the forward links form
  one cycle through all three.
\<close>

lemma three_copies:
  assumes "p \<noteq> q" and "p \<noteq> r" and "q \<noteq> r" and "v \<noteq> 0" and "src = p \<or> src = q"
  shows "\<exists>h3 a b c.
     run_linked member_Next h [Construct p v, CopyConstruct q p, CopyConstruct r src] = Inr h3 \<and>
     deleted h3 = deleted h \<and>
     nodes h3 p = Some a \<and> nodes h3 q = Some b \<and> nodes h3 r = Some c \<and>
     m_pValue a = v \<and> m_pValue b = v \<and> m_pValue c = v \<and>
     ((Next a = q \<and> Next b = r \<and> Next c = p) \<or> (Next a = r \<and> Next c = q \<and> Next b = p))"
  using assms by (auto simp add: linked_defs Let_def)

text \<open>
  \<open>detach()\<close> itself, on any forward cycle of three live handles: it returns the
  address held by the handle it is called on, leaves the three handles null singletons
  and deletes nothing.
\<close>

lemma detach_cycle3:
  assumes "nodes h x = Some a" and "nodes h y = Some b" and "nodes h z = Some c"
    and "Next a = y" and "Next b = z" and "Next c = x"
    and "x \<noteq> y" and "y \<noteq> z" and "x \<noteq> z"
  shows "\<exists>h4. detach h x = Some (Inr (h4, m_pValue a)) \<and>
     nodes h4 x = Some \<lparr>Prev = x, Next = x, m_pValue = 0\<rparr> \<and>
     nodes h4 y = Some \<lparr>Prev = y, Next = y, m_pValue = 0\<rparr> \<and>
     nodes h4 z = Some \<lparr>Prev = z, Next = z, m_pValue = 0\<rparr> \<and>
     deleted h4 = deleted h"
  using assms by (simp add: detach_def detach_loop.simps Let_def)


text \<open>
  With \<open>mpNext\<close> standing for \<open>Next\<close> the copies do form the cycle, and \<open>detach()\<close>
  on any of the three handles reaches all of them.
\<close>

lemma detach_three_way:
  assumes "p \<noteq> q" and "p \<noteq> r" and "q \<noteq> r" and "v \<noteq> 0"
    and "src = p \<or> src = q" and "d = p \<or> d = q \<or> d = r"
  shows "\<exists>h3 h4.
     run_linked member_Next h [Construct p v, CopyConstruct q p, CopyConstruct r src] = Inr h3 \<and>
     detach h3 d = Some (Inr (h4, v)) \<and>
     nodes h4 p = Some \<lparr>Prev = p, Next = p, m_pValue = 0\<rparr> \<and>
     nodes h4 q = Some \<lparr>Prev = q, Next = q, m_pValue = 0\<rparr> \<and>
     nodes h4 r = Some \<lparr>Prev = r, Next = r, m_pValue = 0\<rparr> \<and>
     deleted h4 = deleted h"
proof -
  obtain h3 a b c
    where run: "run_linked member_Next h [Construct p v, CopyConstruct q p, CopyConstruct r src] = Inr h3"
      and del: "deleted h3 = deleted h"
      and live: "nodes h3 p = Some a" "nodes h3 q = Some b" "nodes h3 r = Some c"
      and val: "m_pValue a = v" "m_pValue b = v" "m_pValue c = v"
      and cyc: "(Next a = q \<and> Next b = r \<and> Next c = p) \<or> (Next a = r \<and> Next c = q \<and> Next b = p)"
    using three_copies [OF assms(1-5), of h] by blast
  from assms(6) consider "d = p" | "d = q" | "d = r" by blast
  note which = this
  from cyc show ?thesis
  proof
    assume n: "Next a = q \<and> Next b = r \<and> Next c = p"
    from which show ?thesis
    proof cases
      case 1
      with detach_cycle3 [of h3 p a q b r c] live n assms(1-3) val run del
      show ?thesis by auto
    next
      case 2
      with detach_cycle3 [of h3 q b r c p a] live n assms(1-3) val run del
      show ?thesis by auto
    next
      case 3
      with detach_cycle3 [of h3 r c p a q b] live n assms(1-3) val run del
      show ?thesis by auto
    qed
  next
    assume n: "Next a = r \<and> Next c = q \<and> Next b = p"
    from which show ?thesis
    proof cases
      case 1
      with detach_cycle3 [of h3 p a r c q b] live n assms(1-3) val run del
      show ?thesis by auto
    next
      case 2
      with detach_cycle3 [of h3 q b p a r c] live n assms(1-3) val run del
      show ?thesis by auto
    next
      case 3
      with detach_cycle3 [of h3 r c q b p a] live n assms(1-3) val run del
      show ?thesis by auto
    qed
  qed
qed

text \<open>
  Claim C1.  The claim: over every sequence of copy-constructions, assignments and
  destructions of handles sharing one value, the value is deleted exactly once, when the
  last handle sharing it is destroyed, and never while a live handle still aliases it.
  The code at two such sequences, with handles at addresses 1, 2, 3 and the value at 100,
  for either member that \<open>mpNext\<close> may stand for:
  after \<open>P(v); Q(P); R(P); ~Q; ~P\<close> the value has been deleted although \<open>R\<close> is
  live and still holds it; after \<open>P(v); Q(P); ~P\<close> the last handle \<open>Q\<close> is not
  unique (its links point to the destroyed \<open>P\<close>), so \<open>~Q\<close> takes the unlink branch,
  deletes nothing and writes through a dangling link.
\<close>

theorem shared_value_deleted_while_aliased:
  "run_linked member_Next no_handles
      [Construct 1 100, CopyConstruct 2 1, CopyConstruct 3 1, Destroy 2, Destroy 1]
     = Inr \<lparr>nodes = [3 \<mapsto> \<lparr>Prev = 1, Next = 2, m_pValue = 100\<rparr>], deleted = [100]\<rparr> \<and>
   run_linked member_Next no_handles [Construct 1 100, CopyConstruct 2 1, Destroy 1]
     = Inr \<lparr>nodes = [2 \<mapsto> \<lparr>Prev = 1, Next = 1, m_pValue = 100\<rparr>], deleted = []\<rparr> \<and>
   run_linked member_Next no_handles [Construct 1 100, CopyConstruct 2 1, Destroy 1, Destroy 2]
     = Inl DanglingHandle \<and>
   run_linked member_Prev no_handles
      [Construct 1 100, CopyConstruct 2 1, CopyConstruct 3 1, Destroy 2, Destroy 1]
     = Inr \<lparr>nodes = [3 \<mapsto> \<lparr>Prev = 1, Next = 1, m_pValue = 100\<rparr>], deleted = [100]\<rparr> \<and>
   run_linked member_Prev no_handles [Construct 1 100, CopyConstruct 2 1, Destroy 1]
     = Inr \<lparr>nodes = [2 \<mapsto> \<lparr>Prev = 1, Next = 1, m_pValue = 100\<rparr>], deleted = []\<rparr> \<and>
   run_linked member_Prev no_handles [Construct 1 100, CopyConstruct 2 1, Destroy 1, Destroy 2]
     = Inl DanglingHandle"
  by (simp add: linked_defs no_handles_def Let_def fun_eq_iff)

text \<open>
  Claim C2.  The claim: after every operation each node \<open>n\<close> of a cycle has
  \<open>n.Next.Prev == n\<close> and \<open>n.Prev.Next == n\<close>.  The code after \<open>P(v); Q(P)\<close>, for
  either member that \<open>mpNext\<close> may stand for:
  \<open>link\<close> leaves \<open>P.Prev\<close> at \<open>P\<close>, so the invariant fails at both handles of the
  two-member cycle.  After \<open>P(v); Q(P); R(P); ~Q\<close> the handles \<open>P\<close> and \<open>R\<close> are
  live and hold the same address, but \<open>P\<close> is a cycle of its own, which the forward
  link of \<open>R\<close> does not close (it points to the destroyed \<open>Q\<close>, or to \<open>P\<close>).
\<close>

theorem copy_breaks_link_symmetry:
  "run_linked member_Next no_handles [Construct 1 100, CopyConstruct 2 1]
     = Inr \<lparr>nodes = [1 \<mapsto> \<lparr>Prev = 1, Next = 2, m_pValue = 100\<rparr>,
                     2 \<mapsto> \<lparr>Prev = 1, Next = 1, m_pValue = 100\<rparr>], deleted = []\<rparr> \<and>
   \<not> links_symmetric
      \<lparr>nodes = [1 \<mapsto> \<lparr>Prev = 1, Next = 2, m_pValue = 100\<rparr>,
                2 \<mapsto> \<lparr>Prev = 1, Next = 1, m_pValue = 100\<rparr>], deleted = []\<rparr> 1 \<and>
   \<not> links_symmetric
      \<lparr>nodes = [1 \<mapsto> \<lparr>Prev = 1, Next = 2, m_pValue = 100\<rparr>,
                2 \<mapsto> \<lparr>Prev = 1, Next = 1, m_pValue = 100\<rparr>], deleted = []\<rparr> 2 \<and>
   run_linked member_Next no_handles [Construct 1 100, CopyConstruct 2 1, CopyConstruct 3 1, Destroy 2]
     = Inr \<lparr>nodes = [1 \<mapsto> \<lparr>Prev = 1, Next = 1, m_pValue = 100\<rparr>,
                     3 \<mapsto> \<lparr>Prev = 1, Next = 2, m_pValue = 100\<rparr>], deleted = []\<rparr> \<and>
   run_linked member_Prev no_handles [Construct 1 100, CopyConstruct 2 1]
     = Inr \<lparr>nodes = [1 \<mapsto> \<lparr>Prev = 1, Next = 2, m_pValue = 100\<rparr>,
                     2 \<mapsto> \<lparr>Prev = 1, Next = 1, m_pValue = 100\<rparr>], deleted = []\<rparr> \<and>
   run_linked member_Prev no_handles [Construct 1 100, CopyConstruct 2 1, CopyConstruct 3 1, Destroy 2]
     = Inr \<lparr>nodes = [1 \<mapsto> \<lparr>Prev = 1, Next = 1, m_pValue = 100\<rparr>,
                     3 \<mapsto> \<lparr>Prev = 1, Next = 1, m_pValue = 100\<rparr>], deleted = []\<rparr>"
  by (simp add: linked_defs no_handles_def Let_def fun_eq_iff links_symmetric_def)

section \<open>Properties of the intrusive pointer\<close>

lemmas auto_defs = and_then_def pointee_duplicate_def pointee_release_def handle_at_def
  set_m_ptr_def release_if_set_def duplicate_if_set_def new_auto_ptr_def new_auto_ptr_default_def
  new_auto_ptr_shared_def copy_auto_ptr_def move_auto_ptr_def convert_auto_ptr_def
  destroy_auto_ptr_def get_auto_def isNull_def assign_ptr_def assign_ptr_shared_def
  assign_auto_ptr_def assign_convert_def reset_auto_def reset_shared_def move_assign_def
  dynamic_cast_def dycast_def

text \<open>
  Claim C3.  The claim: copy-construction from a handle with a non-null address calls
  \<open>duplicate()\<close> once, so that copying and then destroying the copy leaves the
  pointee's count as it was.  The code, for a handle at 1 holding the pointee at 100
  whose count is 1: the copy constructor makes no call, and the destructor of the copy
  releases the only reference, which destroys the pointee under the original.
\<close>

theorem copy_construct_skips_duplicate:
  "copy_auto_ptr \<lparr>handles = [1 \<mapsto> \<lparr>m_ptr = 100\<rparr>], refcount = [100 \<mapsto> 1], calls = []\<rparr> 2 1
     = Inr \<lparr>handles = [1 \<mapsto> \<lparr>m_ptr = 100\<rparr>, 2 \<mapsto> \<lparr>m_ptr = 100\<rparr>],
            refcount = [100 \<mapsto> 1], calls = []\<rparr> \<and>
   destroy_auto_ptr \<lparr>handles = [1 \<mapsto> \<lparr>m_ptr = 100\<rparr>, 2 \<mapsto> \<lparr>m_ptr = 100\<rparr>],
            refcount = [100 \<mapsto> 1], calls = []\<rparr> 2
     = Inr \<lparr>handles = [1 \<mapsto> \<lparr>m_ptr = 100\<rparr>], refcount = Map.empty, calls = [Release 100]\<rparr>"
  by (simp add: auto_defs fun_eq_iff)

text \<open>
  Claim C4.  The claim: a \<open>dycast<U>\<close> to a compatible type invokes \<open>duplicate()\<close>
  once, so the count goes up by one.  The code, for a handle at 1 holding the pointee at
  100 whose count is 1 and which is a \<open>U\<close> at the same address: the result handle at 2
  is non-null and the source is unchanged, but no call is made and the count stays 1.
\<close>

theorem dycast_skips_duplicate:
  "dycast (\<lambda>p. p) \<lparr>handles = [1 \<mapsto> \<lparr>m_ptr = 100\<rparr>], refcount = [100 \<mapsto> 1], calls = []\<rparr> 1 2
     = Inr \<lparr>handles = [1 \<mapsto> \<lparr>m_ptr = 100\<rparr>, 2 \<mapsto> \<lparr>m_ptr = 100\<rparr>],
            refcount = [100 \<mapsto> 1], calls = []\<rparr>"
  by (simp add: auto_defs fun_eq_iff)

text \<open>
  Assignment of an address that the handle already holds: the forms that compare the
  addresses held are no-ops, for every pair of handles.
\<close>

lemma assign_linked_equal:
  "nodes l this = Some n \<Longrightarrow> nodes l other = Some m \<Longrightarrow> m_pValue m = m_pValue n \<Longrightarrow>
     assign_linked_ptr mpNext l this other = Inr l"
  by (simp add: linked_defs)

lemma assign_linked_raw_equal:
  "nodes l this = Some n \<Longrightarrow> assign_linked_raw l this (m_pValue n) = Inr l"
  by (simp add: linked_defs)

lemma assign_ptr_equal:
  "handles h a = Some x \<Longrightarrow>
     assign_ptr h a (m_ptr x) = Inr h \<and> assign_ptr_shared h a (m_ptr x) s = Inr h"
  by (simp add: auto_defs)

lemma assign_convert_equal:
  "handles h a = Some x \<Longrightarrow> handles h b = Some y \<Longrightarrow> m_ptr y = m_ptr x \<Longrightarrow>
     assign_convert h a b = Inr h"
  by (simp add: auto_defs)

lemma assign_auto_self: "assign_auto_ptr h a a = Inr h"
  by (simp add: assign_auto_ptr_def)

text \<open>
  Claim C5.  The claim: assigning to a handle an address equal to the one it already
  holds is a safe no-op that invokes neither \<open>release()\<close> nor \<open>duplicate()\<close>, for
  every pair of handles with equal addresses.  The code, for two distinct intrusive
  handles at 1 and 2 that hold the same address 100: \<open>assign(const self_type&)\<close>
  compares \<open>&other\<close> with \<open>this\<close>, not the addresses held.  Where the pointee's count
  is 2 it calls \<open>release()\<close> and then \<open>duplicate()\<close>.  Where the count is 1, which is
  the state the copy constructor leaves, the \<open>release()\<close> destroys the pointee and the
  \<open>duplicate()\<close> that follows is called on a destroyed object.  On that same state the
  converting assignment and the raw-address assignment, which compare the addresses,
  change nothing and call nothing.
\<close>

theorem assign_equal_address_releases:
  "assign_auto_ptr
      \<lparr>handles = [1 \<mapsto> \<lparr>m_ptr = 100\<rparr>, 2 \<mapsto> \<lparr>m_ptr = 100\<rparr>],
        refcount = [100 \<mapsto> 2], calls = []\<rparr> 1 2
     = Inr \<lparr>handles = [1 \<mapsto> \<lparr>m_ptr = 100\<rparr>, 2 \<mapsto> \<lparr>m_ptr = 100\<rparr>],
            refcount = [100 \<mapsto> 2], calls = [Release 100, Duplicate 100]\<rparr> \<and>
   copy_auto_ptr \<lparr>handles = [1 \<mapsto> \<lparr>m_ptr = 100\<rparr>], refcount = [100 \<mapsto> 1], calls = []\<rparr> 2 1
     = Inr \<lparr>handles = [1 \<mapsto> \<lparr>m_ptr = 100\<rparr>, 2 \<mapsto> \<lparr>m_ptr = 100\<rparr>],
            refcount = [100 \<mapsto> 1], calls = []\<rparr> \<and>
   assign_auto_ptr
      \<lparr>handles = [1 \<mapsto> \<lparr>m_ptr = 100\<rparr>, 2 \<mapsto> \<lparr>m_ptr = 100\<rparr>],
        refcount = [100 \<mapsto> 1], calls = []\<rparr> 2 1
     = Inl DanglingPointee \<and>
   assign_convert
      \<lparr>handles = [1 \<mapsto> \<lparr>m_ptr = 100\<rparr>, 2 \<mapsto> \<lparr>m_ptr = 100\<rparr>],
        refcount = [100 \<mapsto> 1], calls = []\<rparr> 2 1
     = Inr \<lparr>handles = [1 \<mapsto> \<lparr>m_ptr = 100\<rparr>, 2 \<mapsto> \<lparr>m_ptr = 100\<rparr>],
            refcount = [100 \<mapsto> 1], calls = []\<rparr> \<and>
   assign_ptr
      \<lparr>handles = [1 \<mapsto> \<lparr>m_ptr = 100\<rparr>, 2 \<mapsto> \<lparr>m_ptr = 100\<rparr>],
        refcount = [100 \<mapsto> 1], calls = []\<rparr> 2 100
     = Inr \<lparr>handles = [1 \<mapsto> \<lparr>m_ptr = 100\<rparr>, 2 \<mapsto> \<lparr>m_ptr = 100\<rparr>],
            refcount = [100 \<mapsto> 1], calls = []\<rparr>"
  by (simp add: auto_defs fun_eq_iff)

text \<open>
  Claim C9, as stated, at a handle that already holds the non-null address 100:
  \<open>reset(p, true)\<close> with that same address is the pointer-identity no-op and does not
  invoke \<open>duplicate()\<close>.
\<close>

theorem reset_shared_counterexample:
  "reset_shared \<lparr>handles = [1 \<mapsto> \<lparr>m_ptr = 100\<rparr>], refcount = [100 \<mapsto> 1], calls = []\<rparr> 1 100 True
     = Inr \<lparr>handles = [1 \<mapsto> \<lparr>m_ptr = 100\<rparr>], refcount = [100 \<mapsto> 1], calls = []\<rparr>"
  by (simp add: auto_defs fun_eq_iff)

text \<open>
  Claim C9, amended.  The two-argument constructor ignores its flag: for every address
  \<open>p\<close> and every boolean \<open>s\<close> it is the one-argument constructor, stores \<open>p\<close> and
  calls nothing.  \<open>reset(p, true)\<close> does invoke \<open>duplicate()\<close> on \<open>p\<close> (after
  releasing the address held before, if any) when \<open>p\<close> is non-null and differs from the
  address the handle holds.
\<close>

theorem shared_flag_ignored_by_constructor:
  "new_auto_ptr_shared h this p s = new_auto_ptr h this p \<and>
   calls (new_auto_ptr_shared h this p s) = calls h \<and>
   refcount (new_auto_ptr_shared h this p s) = refcount h \<and>
   get_auto (new_auto_ptr_shared h this p s) this = Inr p \<and>
   (handles h this = Some n \<and> m_ptr n \<noteq> p \<and> p \<noteq> 0 \<and> refcount h p = Some c \<and>
    (m_ptr n \<noteq> 0 \<longrightarrow> refcount h (m_ptr n) = Some k) \<longrightarrow>
      (\<exists>h1. reset_shared h this p True = Inr h1 \<and>
            calls h1 = calls h @ (if m_ptr n = 0 then [] else [Release (m_ptr n)]) @ [Duplicate p] \<and>
            get_auto h1 this = Inr p))"
  by (simp add: auto_defs)

theorem shared_flag_ignored_by_constructor_witness:
  "get_auto (new_auto_ptr_shared
       \<lparr>handles = [1 \<mapsto> \<lparr>m_ptr = 0\<rparr>], refcount = [100 \<mapsto> 1], calls = []\<rparr> 2 100 True) 2 = Inr 100 \<and>
   calls (new_auto_ptr_shared
       \<lparr>handles = [1 \<mapsto> \<lparr>m_ptr = 0\<rparr>], refcount = [100 \<mapsto> 1], calls = []\<rparr> 2 100 True) = [] \<and>
   (\<exists>h1. reset_shared
       \<lparr>handles = [1 \<mapsto> \<lparr>m_ptr = 0\<rparr>], refcount = [100 \<mapsto> 1], calls = []\<rparr> 1 100 True = Inr h1 \<and>
         calls h1 = [Duplicate 100] \<and> get_auto h1 1 = Inr 100)"
  using shared_flag_ignored_by_constructor
    [of "\<lparr>handles = [1 \<mapsto> \<lparr>m_ptr = 0\<rparr>], refcount = [100 \<mapsto> 1], calls = []\<rparr>" 2 100 True]
    shared_flag_ignored_by_constructor
    [of "\<lparr>handles = [1 \<mapsto> \<lparr>m_ptr = 0\<rparr>], refcount = [100 \<mapsto> 1], calls = []\<rparr>" 1 100 True
        "\<lparr>m_ptr = 0\<rparr>" 1 0]
  by auto

text \<open>
  Claim C10.  Self-move-assignment is not a no-op: for every handle holding a non-null
  address (of a live pointee), \<open>h = move(h)\<close> invokes \<open>release()\<close> exactly once on the
  pointee, makes no other call, and leaves the handle null.
\<close>

theorem self_move_assign:
  assumes "handles h this = Some n" and "m_ptr n \<noteq> 0" and "refcount h (m_ptr n) = Some c"
  shows "\<exists>h1. move_assign h this this = Inr h1 \<and>
           calls h1 = calls h @ [Release (m_ptr n)] \<and>
           get_auto h1 this = Inr 0 \<and> isNull h1 this = Inr True"
  using assms by (simp add: auto_defs)

theorem self_move_assign_witness:
  "\<exists>h1. move_assign
           \<lparr>handles = [1 \<mapsto> \<lparr>m_ptr = 100\<rparr>], refcount = [100 \<mapsto> 1], calls = []\<rparr> 1 1 = Inr h1 \<and>
         calls h1 = [Release 100] \<and> get_auto h1 1 = Inr 0 \<and> isNull h1 1 = Inr True"
  using self_move_assign
    [of "\<lparr>handles = [1 \<mapsto> \<lparr>m_ptr = 100\<rparr>], refcount = [100 \<mapsto> 1], calls = []\<rparr>" 1 "\<lparr>m_ptr = 100\<rparr>" 1]
  by simp

end
